theory Spec2Isabelle
  imports Complex_Main "HOL-Library.Multiset"
begin

section \<open>Catchment overlap analysis of \<open>src/components/OutletMap.js\<close>\<close>

text \<open>
  The component \<open>OutletMap\<close> filters the outlets it is given, computes the haversine
  distance of every pair of the remaining ones and collects, in a JavaScript \<open>Set\<close>, the
  ids of the outlets that lie less than twice the catchment radius from another one.

  JavaScript numbers are modelled as the real numbers extended by \<open>Infinity\<close>,
  \<open>-Infinity\<close> and \<open>NaN\<close>, with the rules of IEEE 754 for these three values. On
  finite values the model computes exactly, where the program computes in double
  precision: rounding, overflow to infinity and the sign of zero are not modelled, and
  \<open>Math.sin\<close>, \<open>Math.cos\<close>, \<open>Math.sqrt\<close> and \<open>Math.atan2\<close> are the exact
  functions. So the number that \<open>calculateDistance\<close> has in the model at given finite
  coordinates may differ from the number the program computes there, which can even be
  \<open>NaN\<close>, and no statement below says what that number is. The statements speak of the
  distance the component computes, whatever it is, and their proofs use two facts about
  it that double precision shares: it does not change when the two points are swapped
  (a difference and its opposite round alike, products commute, the sine is odd), and
  it is \<open>NaN\<close> as soon as a coordinate is not finite. Only the examples evaluate
  distances: 0 between two outlets at the same place, and half the circumference
  between the poles.
\<close>

subsection \<open>JavaScript numbers and values\<close>

datatype jsnum = Num real | PosInf | NegInf | NaN

text \<open>A coordinate field of an outlet record: absent, \<open>null\<close> or a number.\<close>

datatype jsval = JUndefined | JNull | JNumber jsnum

fun ToNumber :: "jsval \<Rightarrow> jsnum" where
  "ToNumber JUndefined = NaN"
| "ToNumber JNull = Num 0"
| "ToNumber (JNumber n) = n"

fun ToBoolean :: "jsval \<Rightarrow> bool" where
  "ToBoolean JUndefined = False"
| "ToBoolean JNull = False"
| "ToBoolean (JNumber (Num x)) = (x \<noteq> 0)"
| "ToBoolean (JNumber NaN) = False"
| "ToBoolean (JNumber PosInf) = True"
| "ToBoolean (JNumber NegInf) = True"

definition isNaN :: "jsval \<Rightarrow> bool" where
  "isNaN v = (ToNumber v = NaN)"

fun js_add :: "jsnum \<Rightarrow> jsnum \<Rightarrow> jsnum" where
  "js_add (Num x) (Num y) = Num (x + y)"
| "js_add NaN _ = NaN"
| "js_add _ NaN = NaN"
| "js_add PosInf NegInf = NaN"
| "js_add NegInf PosInf = NaN"
| "js_add PosInf _ = PosInf"
| "js_add _ PosInf = PosInf"
| "js_add NegInf _ = NegInf"
| "js_add _ NegInf = NegInf"

fun js_sub :: "jsnum \<Rightarrow> jsnum \<Rightarrow> jsnum" where
  "js_sub (Num x) (Num y) = Num (x - y)"
| "js_sub NaN _ = NaN"
| "js_sub _ NaN = NaN"
| "js_sub PosInf PosInf = NaN"
| "js_sub NegInf NegInf = NaN"
| "js_sub PosInf _ = PosInf"
| "js_sub _ NegInf = PosInf"
| "js_sub NegInf _ = NegInf"
| "js_sub _ PosInf = NegInf"

fun js_mul :: "jsnum \<Rightarrow> jsnum \<Rightarrow> jsnum" where
  "js_mul (Num x) (Num y) = Num (x * y)"
| "js_mul NaN _ = NaN"
| "js_mul _ NaN = NaN"
| "js_mul PosInf (Num y) = (if y = 0 then NaN else if 0 < y then PosInf else NegInf)"
| "js_mul NegInf (Num y) = (if y = 0 then NaN else if 0 < y then NegInf else PosInf)"
| "js_mul (Num x) PosInf = (if x = 0 then NaN else if 0 < x then PosInf else NegInf)"
| "js_mul (Num x) NegInf = (if x = 0 then NaN else if 0 < x then NegInf else PosInf)"
| "js_mul PosInf PosInf = PosInf"
| "js_mul NegInf NegInf = PosInf"
| "js_mul PosInf NegInf = NegInf"
| "js_mul NegInf PosInf = NegInf"

fun js_div :: "jsnum \<Rightarrow> jsnum \<Rightarrow> jsnum" where
  "js_div (Num x) (Num y) =
     (if y = 0 then (if x = 0 then NaN else if 0 < x then PosInf else NegInf)
      else Num (x / y))"
| "js_div NaN _ = NaN"
| "js_div _ NaN = NaN"
| "js_div PosInf (Num y) = (if 0 \<le> y then PosInf else NegInf)"
| "js_div NegInf (Num y) = (if 0 \<le> y then NegInf else PosInf)"
| "js_div (Num x) _ = Num 0"
| "js_div _ _ = NaN"

text \<open>The comparison \<open><\<close>: false as soon as one side is \<open>NaN\<close>.\<close>

fun js_lt :: "jsnum \<Rightarrow> jsnum \<Rightarrow> bool" where
  "js_lt (Num x) (Num y) = (x < y)"
| "js_lt NaN _ = False"
| "js_lt _ NaN = False"
| "js_lt _ NegInf = False"
| "js_lt PosInf _ = False"
| "js_lt NegInf _ = True"
| "js_lt _ PosInf = True"

subsection \<open>The functions of \<open>Math\<close> that the component calls\<close>

definition Math_PI :: jsnum where
  "Math_PI = Num pi"

fun Math_sin :: "jsnum \<Rightarrow> jsnum" where
  "Math_sin (Num x) = Num (sin x)"
| "Math_sin _ = NaN"

fun Math_cos :: "jsnum \<Rightarrow> jsnum" where
  "Math_cos (Num x) = Num (cos x)"
| "Math_cos _ = NaN"

fun Math_sqrt :: "jsnum \<Rightarrow> jsnum" where
  "Math_sqrt (Num x) = (if x < 0 then NaN else Num (sqrt x))"
| "Math_sqrt PosInf = PosInf"
| "Math_sqrt _ = NaN"

text \<open>The angle of the point \<open>(x, y)\<close>, in \<open>(-\<pi>, \<pi>]\<close>; note the order of the arguments.\<close>

definition atan2 :: "real \<Rightarrow> real \<Rightarrow> real" where
  "atan2 y x =
     (if 0 < x then arctan (y / x)
      else if x < 0 then (if 0 \<le> y then arctan (y / x) + pi else arctan (y / x) - pi)
      else if 0 < y then pi / 2
      else if y < 0 then - (pi / 2)
      else 0)"

fun Math_atan2 :: "jsnum \<Rightarrow> jsnum \<Rightarrow> jsnum" where
  "Math_atan2 (Num y) (Num x) = Num (atan2 y x)"
| "Math_atan2 NaN _ = NaN"
| "Math_atan2 _ NaN = NaN"
| "Math_atan2 (Num y) PosInf = Num 0"
| "Math_atan2 (Num y) NegInf = Num (if 0 \<le> y then pi else - pi)"
| "Math_atan2 PosInf (Num x) = Num (pi / 2)"
| "Math_atan2 NegInf (Num x) = Num (- (pi / 2))"
| "Math_atan2 PosInf PosInf = Num (pi / 4)"
| "Math_atan2 PosInf NegInf = Num (3 * pi / 4)"
| "Math_atan2 NegInf PosInf = Num (- (pi / 4))"
| "Math_atan2 NegInf NegInf = Num (- (3 * pi / 4))"

subsection \<open>Outlets\<close>

text \<open>
  An outlet as the backend delivers it. The component reads \<open>id\<close>, \<open>latitude\<close> and
  \<open>longitude\<close> for the analysis; the other fields are only displayed.
\<close>

record 'i outlet =
  outlet_id :: 'i
  latitude :: jsval
  longitude :: jsval
  name :: string
  address :: string
  operating_hours :: "string option"
  telephone :: "string option"
  waze_link :: "string option"

subsection \<open>\<open>calculateDistance\<close>\<close>

definition calculateDistance :: "jsval \<Rightarrow> jsval \<Rightarrow> jsval \<Rightarrow> jsval \<Rightarrow> jsnum" where
  "calculateDistance lat1 lon1 lat2 lon2 =
     (let R = Num 6371;
          dLat = js_div (js_mul (js_sub (ToNumber lat2) (ToNumber lat1)) Math_PI) (Num 180);
          dLon = js_div (js_mul (js_sub (ToNumber lon2) (ToNumber lon1)) Math_PI) (Num 180);
          a = js_add
                (js_mul (Math_sin (js_div dLat (Num 2))) (Math_sin (js_div dLat (Num 2))))
                (js_mul
                  (js_mul
                    (js_mul (Math_cos (js_div (js_mul (ToNumber lat1) Math_PI) (Num 180)))
                            (Math_cos (js_div (js_mul (ToNumber lat2) Math_PI) (Num 180))))
                    (Math_sin (js_div dLon (Num 2))))
                  (Math_sin (js_div dLon (Num 2))));
          c = js_mul (Num 2) (Math_atan2 (Math_sqrt a) (Math_sqrt (js_sub (Num 1) a)))
      in js_mul R c)"

subsection \<open>The JavaScript \<open>Set\<close> of flagged ids\<close>

text \<open>
  A \<open>Set\<close> keeps its elements in insertion order and without duplicates, so it is a
  list to which \<open>add\<close> appends an element only if it is not yet present.
\<close>

type_synonym 'i js_set = "'i list"

definition Set_new :: "'i js_set" where
  "Set_new = []"

definition Set_add :: "'i js_set \<Rightarrow> 'i \<Rightarrow> 'i js_set" where
  "Set_add s x = (if x \<in> set s then s else s @ [x])"

definition Set_has :: "'i js_set \<Rightarrow> 'i \<Rightarrow> bool" where
  "Set_has s x = (x \<in> set s)"

definition Set_size :: "'i js_set \<Rightarrow> nat" where
  "Set_size s = length s"

subsection \<open>\<open>findIntersectingOutlets\<close>\<close>

text \<open>The distance of two outlets, as the loop body calls \<open>calculateDistance\<close>.\<close>

definition distance :: "'i outlet \<Rightarrow> 'i outlet \<Rightarrow> jsnum" where
  "distance a b = calculateDistance (latitude a) (longitude a) (latitude b) (longitude b)"

text \<open>
  The inner loop \<open>for (let j = i + 1; j < outletList.length; j++)\<close>, entered at \<open>j\<close>
  with the set \<open>intersecting\<close> built so far. Both indices stay below the length of
  the list, so no read is out of range.
\<close>

function inner_loop ::
  "real \<Rightarrow> 'i outlet list \<Rightarrow> nat \<Rightarrow> nat \<Rightarrow> 'i js_set \<Rightarrow> 'i js_set" where
  "inner_loop catchmentRadius outletList i j intersecting =
     (if j < length outletList then
        inner_loop catchmentRadius outletList i (j + 1)
          (if js_lt (distance (outletList ! i) (outletList ! j))
                    (js_mul (Num catchmentRadius) (Num 2))
           then Set_add (Set_add intersecting (outlet_id (outletList ! i)))
                        (outlet_id (outletList ! j))
           else intersecting)
      else intersecting)"
  by pat_completeness auto
termination
  by (relation "measure (\<lambda>(r, l, i, j, s). length l - j)") auto

declare inner_loop.simps [simp del]

text \<open>The outer loop \<open>for (let i = 0; i < outletList.length; i++)\<close>, entered at \<open>i\<close>.\<close>

function outer_loop ::
  "real \<Rightarrow> 'i outlet list \<Rightarrow> nat \<Rightarrow> 'i js_set \<Rightarrow> 'i js_set" where
  "outer_loop catchmentRadius outletList i intersecting =
     (if i < length outletList then
        outer_loop catchmentRadius outletList (i + 1)
          (inner_loop catchmentRadius outletList i (i + 1) intersecting)
      else intersecting)"
  by pat_completeness auto
termination
  by (relation "measure (\<lambda>(r, l, i, s). length l - i)") auto

declare outer_loop.simps [simp del]

text \<open>
  The body of \<open>findIntersectingOutlets\<close> with its local constant \<open>catchmentRadius\<close>
  as a parameter, and the function itself, where the constant is 5.
\<close>

definition findIntersectingOutletsWith :: "real \<Rightarrow> 'i outlet list \<Rightarrow> 'i js_set" where
  "findIntersectingOutletsWith catchmentRadius outletList =
     outer_loop catchmentRadius outletList 0 Set_new"

definition findIntersectingOutlets :: "'i outlet list \<Rightarrow> 'i js_set" where
  "findIntersectingOutlets outletList = findIntersectingOutletsWith 5 outletList"

subsection \<open>The effect that filters the outlets and runs the analysis\<close>

text \<open>The predicate of \<open>initialOutlets.filter\<close>.\<close>

definition validOutlet :: "'i outlet \<Rightarrow> bool" where
  "validOutlet outlet =
     (ToBoolean (latitude outlet) \<and> ToBoolean (longitude outlet) \<and>
      \<not> isNaN (latitude outlet) \<and> \<not> isNaN (longitude outlet))"

record 'i component_state =
  outlets :: "'i outlet list"
  mapCenter :: "jsval \<times> jsval"
  intersectingOutlets :: "'i js_set"

definition useEffect :: "'i outlet list \<Rightarrow> 'i component_state \<Rightarrow> 'i component_state" where
  "useEffect initialOutlets st =
     (if length initialOutlets > 0 then
        (let validOutlets = filter validOutlet initialOutlets;
             intersecting = findIntersectingOutlets validOutlets
         in st\<lparr>outlets := validOutlets,
               intersectingOutlets := intersecting,
               mapCenter := (if length validOutlets > 0
                             then (latitude (validOutlets ! 0), longitude (validOutlets ! 0))
                             else mapCenter st)\<rparr>)
      else st\<lparr>outlets := [], intersectingOutlets := Set_new\<rparr>)"

subsection \<open>The quantity under the square roots\<close>

text \<open>
  The value that the model gives to the variable \<open>a\<close> of \<open>calculateDistance\<close> at finite
  coordinates in degrees; \<open>radians\<close> converts degrees.
\<close>

definition radians :: "real \<Rightarrow> real" where
  "radians d = d * pi / 180"

definition haversine_h :: "real \<Rightarrow> real \<Rightarrow> real \<Rightarrow> real \<Rightarrow> real" where
  "haversine_h lat_a lon_a lat_b lon_b =
     (sin (radians (lat_b - lat_a) / 2))\<^sup>2 +
     cos (radians lat_a) * cos (radians lat_b) * (sin (radians (lon_b - lon_a) / 2))\<^sup>2"

subsection \<open>The initial state of the component\<close>

text \<open>\<open>MAP_CONFIG.DEFAULT_CENTER\<close> of the configuration file, and the three \<open>useState\<close> calls.\<close>

definition DEFAULT_CENTER :: "jsval \<times> jsval" where
  "DEFAULT_CENTER = (JNumber (Num 3.1390), JNumber (Num 101.6869))"

definition initial_state :: "'i outlet list \<Rightarrow> 'i component_state" where
  "initial_state initialOutlets =
     \<lparr>outlets = initialOutlets, mapCenter = DEFAULT_CENTER, intersectingOutlets = Set_new\<rparr>"

subsection \<open>The specification's notion of an eligible outlet\<close>

text \<open>
  The specification asks for coordinates that are present, finite and within the
  geographic range: latitude in \<open>-90..90\<close>, longitude in \<open>-180..180\<close>.
\<close>

definition present_finite :: "jsval \<Rightarrow> bool" where
  "present_finite v = (case v of JNumber (Num x) \<Rightarrow> True | _ \<Rightarrow> False)"

definition in_range :: "real \<Rightarrow> real \<Rightarrow> jsval \<Rightarrow> bool" where
  "in_range lo hi v = (case v of JNumber (Num x) \<Rightarrow> lo \<le> x \<and> x \<le> hi | _ \<Rightarrow> False)"

definition eligible :: "'i outlet \<Rightarrow> bool" where
  "eligible outlet =
     (in_range (- 90) 90 (latitude outlet) \<and> in_range (- 180) 180 (longitude outlet))"

subsection \<open>Outlets for the examples\<close>

definition mk_outlet :: "'i \<Rightarrow> jsval \<Rightarrow> jsval \<Rightarrow> 'i outlet" where
  "mk_outlet i lat lon =
     \<lparr>outlet_id = i, latitude = lat, longitude = lon, name = [], address = [],
      operating_hours = None, telephone = None, waze_link = None\<rparr>"

text \<open>An outlet in Kuala Lumpur, one at the north pole and one at the south pole.\<close>

definition kl :: "nat \<Rightarrow> nat outlet" where
  "kl i = mk_outlet i (JNumber (Num 3.1390)) (JNumber (Num 101.6869))"

definition north :: "nat \<Rightarrow> nat outlet" where
  "north i = mk_outlet i (JNumber (Num 90)) (JNumber (Num 1))"

definition south :: "nat \<Rightarrow> nat outlet" where
  "south i = mk_outlet i (JNumber (Num (- 90))) (JNumber (Num 1))"

text \<open>
  Outlets at the longitude of Kuala Lumpur: one on the equator, one whose latitude is
  infinite, and one without a latitude.
\<close>

definition equator :: "nat \<Rightarrow> nat outlet" where
  "equator i = mk_outlet i (JNumber (Num 0)) (JNumber (Num 101.6869))"

definition unbounded :: "nat \<Rightarrow> nat outlet" where
  "unbounded i = mk_outlet i (JNumber PosInf) (JNumber (Num 101.6869))"

definition unlocated :: "nat \<Rightarrow> nat outlet" where
  "unlocated i = mk_outlet i JNull (JNumber (Num 101.6869))"

subsection \<open>Auxiliary notions for the statements\<close>

text \<open>A number that is neither \<open>NaN\<close> nor infinite.\<close>

definition is_finite :: "jsnum \<Rightarrow> bool" where
  "is_finite n = (case n of Num x \<Rightarrow> True | _ \<Rightarrow> False)"

text \<open>The test of the loop body: the two outlets are closer than twice the radius.\<close>

abbreviation overlap :: "real \<Rightarrow> 'i outlet \<Rightarrow> 'i outlet \<Rightarrow> bool" where
  "overlap r a b \<equiv> js_lt (distance a b) (js_mul (Num r) (Num 2))"

section \<open>Properties of the distance\<close>

lemma calculateDistance_a:
  "js_add
     (js_mul (Math_sin (js_div (js_div (js_mul (js_sub (Num lat2) (Num lat1)) Math_PI) (Num 180)) (Num 2)))
             (Math_sin (js_div (js_div (js_mul (js_sub (Num lat2) (Num lat1)) Math_PI) (Num 180)) (Num 2))))
     (js_mul
       (js_mul
         (js_mul (Math_cos (js_div (js_mul (Num lat1) Math_PI) (Num 180)))
                 (Math_cos (js_div (js_mul (Num lat2) Math_PI) (Num 180))))
         (Math_sin (js_div (js_div (js_mul (js_sub (Num lon2) (Num lon1)) Math_PI) (Num 180)) (Num 2))))
       (Math_sin (js_div (js_div (js_mul (js_sub (Num lon2) (Num lon1)) Math_PI) (Num 180)) (Num 2))))
   = Num (haversine_h lat1 lon1 lat2 lon2)"
  by (simp add: Math_PI_def haversine_h_def radians_def power2_eq_square)

lemma calculateDistance_finite:
  assumes "ToNumber lat1 = Num x1" "ToNumber lon1 = Num y1"
    "ToNumber lat2 = Num x2" "ToNumber lon2 = Num y2"
  shows "calculateDistance lat1 lon1 lat2 lon2 =
     js_mul (Num 6371) (js_mul (Num 2)
       (Math_atan2 (Math_sqrt (Num (haversine_h x1 y1 x2 y2)))
                   (Math_sqrt (js_sub (Num 1) (Num (haversine_h x1 y1 x2 y2))))))"
  unfolding calculateDistance_def Let_def assms calculateDistance_a ..

lemma haversine_h_sym: "haversine_h x1 y1 x2 y2 = haversine_h x2 y2 x1 y1"
proof -
  have m: "radians (x1 - x2) / 2 = - (radians (x2 - x1) / 2)"
    "radians (y1 - y2) / 2 = - (radians (y2 - y1) / 2)"
    by (simp_all add: radians_def field_simps)
  show ?thesis
    unfolding haversine_h_def m sin_minus by (simp add: mult.commute)
qed

lemma sin_half_nonfinite:
  "\<not> (is_finite a \<and> is_finite b) \<Longrightarrow>
   Math_sin (js_div (js_div (js_mul (js_sub a b) Math_PI) (Num 180)) (Num 2)) = NaN"
  using pi_gt_zero
  by (cases a; cases b) (simp_all add: is_finite_def Math_PI_def)

lemma cos_nonfinite:
  "\<not> is_finite a \<Longrightarrow> Math_cos (js_div (js_mul a Math_PI) (Num 180)) = NaN"
  using pi_gt_zero
  by (cases a) (simp_all add: is_finite_def Math_PI_def)

lemma js_add_NaN [simp]: "js_add x NaN = NaN" "js_add NaN x = NaN"
  by (cases x; simp)+

lemma js_mul_NaN [simp]: "js_mul x NaN = NaN" "js_mul NaN x = NaN"
  by (cases x; simp)+

lemma js_sub_NaN [simp]: "js_sub x NaN = NaN" "js_sub NaN x = NaN"
  by (cases x; simp)+

lemma calc_nonfinite:
  assumes "\<not> (is_finite (ToNumber lat1) \<and> is_finite (ToNumber lon1) \<and>
              is_finite (ToNumber lat2) \<and> is_finite (ToNumber lon2))"
  shows "calculateDistance lat1 lon1 lat2 lon2 = NaN"
proof -
  consider "\<not> is_finite (ToNumber lat1)" | "\<not> is_finite (ToNumber lat2)"
    | "\<not> (is_finite (ToNumber lon2) \<and> is_finite (ToNumber lon1))"
    using assms by blast
  then show ?thesis
  proof cases
    case 1
    then show ?thesis
      by (simp add: calculateDistance_def Let_def cos_nonfinite)
  next
    case 2
    then show ?thesis
      by (simp add: calculateDistance_def Let_def cos_nonfinite)
  next
    case 3
    then show ?thesis
      by (simp add: calculateDistance_def Let_def sin_half_nonfinite)
  qed
qed

lemma is_finite_Num: "is_finite n \<Longrightarrow> \<exists>x. n = Num x"
  by (cases n) (simp_all add: is_finite_def)

lemma calculateDistance_sym:
  "calculateDistance lat1 lon1 lat2 lon2 = calculateDistance lat2 lon2 lat1 lon1"
proof (cases "is_finite (ToNumber lat1) \<and> is_finite (ToNumber lon1) \<and>
              is_finite (ToNumber lat2) \<and> is_finite (ToNumber lon2)")
  case True
  then obtain x1 y1 x2 y2 where n: "ToNumber lat1 = Num x1" "ToNumber lon1 = Num y1"
      "ToNumber lat2 = Num x2" "ToNumber lon2 = Num y2"
    by (auto dest!: is_finite_Num)
  show ?thesis
    unfolding calculateDistance_finite[OF n] calculateDistance_finite[OF n(3,4,1,2)]
      haversine_h_sym[of x1 y1 x2 y2] ..
next
  case False
  then show ?thesis
    by (subst calc_nonfinite, blast)+ simp
qed

subsection \<open>Distances at particular places\<close>

lemma haversine_h_same: "haversine_h x y x y = 0"
  by (simp add: haversine_h_def radians_def)

lemma calculateDistance_same:
  assumes "ToNumber lat = Num x" "ToNumber lon = Num y"
  shows "calculateDistance lat lon lat lon = Num 0"
  by (simp add: calculateDistance_finite[OF assms assms] haversine_h_same atan2_def)

lemma haversine_h_poles: "haversine_h 90 y1 (- 90) y2 = 1"
proof -
  have a: "radians (- 90 - 90) / 2 = - (pi / 2)" "radians 90 = pi / 2"
    by (simp_all add: radians_def)
  show ?thesis
    unfolding haversine_h_def a by simp
qed

lemma calculateDistance_poles:
  assumes "ToNumber lon1 = Num y1" "ToNumber lon2 = Num y2"
  shows "calculateDistance (JNumber (Num 90)) lon1 (JNumber (Num (- 90))) lon2 = Num (6371 * pi)"
proof -
  have n: "ToNumber (JNumber (Num 90)) = Num 90" "ToNumber (JNumber (Num (- 90))) = Num (- 90)"
    by simp_all
  show ?thesis
    unfolding calculateDistance_finite[OF n(1) assms(1) n(2) assms(2)] haversine_h_poles
    by (simp add: atan2_def)
qed

section \<open>Properties of the two nested iterations\<close>

lemma set_Set_add [simp]: "set (Set_add s x) = insert x (set s)"
  by (auto simp: Set_add_def)

lemma distinct_Set_add [simp]: "distinct (Set_add s x) = distinct s"
  by (simp add: Set_add_def)

lemma set_inner_loop:
  "set (inner_loop r l i j acc) =
     set acc \<union> {x. \<exists>k. j \<le> k \<and> k < length l \<and> overlap r (l ! i) (l ! k) \<and>
                      (x = outlet_id (l ! i) \<or> x = outlet_id (l ! k))}"
proof (induction r l i j acc rule: inner_loop.induct)
  case (1 r l i j acc)
  show ?case
  proof (cases "j < length l")
    case False
    then show ?thesis by (subst inner_loop.simps) auto
  next
    case True
    let ?acc' = "if overlap r (l ! i) (l ! j)
                 then Set_add (Set_add acc (outlet_id (l ! i))) (outlet_id (l ! j)) else acc"
    have step: "inner_loop r l i j acc = inner_loop r l i (j + 1) ?acc'"
      using True by (subst inner_loop.simps) simp
    have ih: "set (inner_loop r l i (j + 1) ?acc') =
        set ?acc' \<union> {x. \<exists>k. j + 1 \<le> k \<and> k < length l \<and> overlap r (l ! i) (l ! k) \<and>
                      (x = outlet_id (l ! i) \<or> x = outlet_id (l ! k))}"
      using "1.IH"[OF True] by simp
    have split: "\<And>k. (j \<le> k) = (k = j \<or> j + 1 \<le> k)" by auto
    show ?thesis
      unfolding step ih using True by (auto simp: split)
  qed
qed

lemma distinct_inner_loop: "distinct acc \<Longrightarrow> distinct (inner_loop r l i j acc)"
proof (induction r l i j acc rule: inner_loop.induct)
  case (1 r l i j acc)
  show ?case
  proof (cases "j < length l")
    case False
    then show ?thesis using "1.prems" by (subst inner_loop.simps) simp
  next
    case True
    then show ?thesis
      using "1.IH"[OF True] "1.prems" by (subst inner_loop.simps) simp
  qed
qed

lemma split_first_index:
  fixes i :: nat
  shows "(\<exists>m k. i \<le> m \<and> m < k \<and> Q m k) \<longleftrightarrow>
         (\<exists>k. i + 1 \<le> k \<and> Q i k) \<or> (\<exists>m k. i + 1 \<le> m \<and> m < k \<and> Q m k)"
proof -
  have "\<And>m. i \<le> m \<longleftrightarrow> m = i \<or> i + 1 \<le> m" by auto
  moreover have "\<And>k. i + 1 \<le> k \<longleftrightarrow> i < k" by auto
  ultimately show ?thesis by metis
qed

lemma set_outer_loop:
  "set (outer_loop r l i acc) =
     set acc \<union> {x. \<exists>m k. i \<le> m \<and> m < k \<and> k < length l \<and> overlap r (l ! m) (l ! k) \<and>
                      (x = outlet_id (l ! m) \<or> x = outlet_id (l ! k))}"
proof (induction r l i acc rule: outer_loop.induct)
  case (1 r l i acc)
  show ?case
  proof (cases "i < length l")
    case False
    then show ?thesis by (subst outer_loop.simps) auto
  next
    case True
    have step: "outer_loop r l i acc = outer_loop r l (i + 1) (inner_loop r l i (i + 1) acc)"
      using True by (subst outer_loop.simps) simp
    show ?thesis
      unfolding step "1.IH"[OF True] set_inner_loop
      by (rule set_eqI) (simp only: Un_iff mem_Collect_eq split_first_index[of i], blast)
  qed
qed

lemma distinct_outer_loop: "distinct acc \<Longrightarrow> distinct (outer_loop r l i acc)"
proof (induction r l i acc rule: outer_loop.induct)
  case (1 r l i acc)
  show ?case
  proof (cases "i < length l")
    case False
    then show ?thesis using "1.prems" by (subst outer_loop.simps) simp
  next
    case True
    then show ?thesis
      using "1.IH"[OF True] "1.prems" by (subst outer_loop.simps) (simp add: distinct_inner_loop)
  qed
qed

lemma distance_sym: "distance a b = distance b a"
  unfolding distance_def by (rule calculateDistance_sym)

lemma mem_findWith:
  "x \<in> set (findIntersectingOutletsWith r l) \<longleftrightarrow>
     (\<exists>i j. i < length l \<and> j < length l \<and> i \<noteq> j \<and> outlet_id (l ! i) = x \<and> overlap r (l ! i) (l ! j))"
  (is "?L = ?R")
proof
  assume ?L
  then obtain m k where mk: "m < k" "k < length l" "overlap r (l ! m) (l ! k)"
      "x = outlet_id (l ! m) \<or> x = outlet_id (l ! k)"
    by (auto simp: findIntersectingOutletsWith_def set_outer_loop Set_new_def)
  from mk(4) show ?R
  proof
    assume "x = outlet_id (l ! m)"
    with mk show ?R by (intro exI[of _ m] exI[of _ k]) auto
  next
    assume "x = outlet_id (l ! k)"
    with mk show ?R using distance_sym[of "l ! m" "l ! k"]
      by (intro exI[of _ k] exI[of _ m]) auto
  qed
next
  assume ?R
  then obtain i j where ij: "i < length l" "j < length l" "i \<noteq> j" "outlet_id (l ! i) = x"
      "overlap r (l ! i) (l ! j)" by blast
  show ?L
  proof (cases "i < j")
    case True
    with ij show ?thesis
      by (auto simp: findIntersectingOutletsWith_def set_outer_loop Set_new_def)
  next
    case False
    with ij have "j < i" by simp
    moreover have "overlap r (l ! j) (l ! i)" using ij(5) distance_sym[of "l ! i" "l ! j"] by simp
    ultimately show ?thesis using ij
      by (auto simp: findIntersectingOutletsWith_def set_outer_loop Set_new_def)
  qed
qed

subsection \<open>The flagged ids in terms of the multiset of outlets\<close>

lemma pair_of_indices_mset:
  assumes "i < length l" "j < length l" "i < j"
  shows "{#l ! i, l ! j#} \<subseteq># mset l"
proof -
  have l: "l = take i l @ l ! i # drop (Suc i) l"
    using assms(1) by (rule id_take_nth_drop)
  have "l ! j = drop (Suc i) l ! (j - Suc i)"
    using assms by simp
  moreover have "j - Suc i < length (drop (Suc i) l)"
    using assms by simp
  ultimately have "l ! j \<in> set (drop (Suc i) l)"
    by (metis nth_mem)
  then have "{#l ! j#} \<subseteq># mset (drop (Suc i) l)"
    by simp
  then have "{#l ! i, l ! j#} \<subseteq># mset (take i l) + {#l ! i#} + mset (drop (Suc i) l)"
    by (simp add: subset_mset.add_increasing)
  also have "mset (take i l) + {#l ! i#} + mset (drop (Suc i) l) = mset l"
    by (subst (4) l) simp
  finally show ?thesis .
qed

lemma indices_of_pair_mset:
  assumes "{#a, b#} \<subseteq># mset l"
  shows "\<exists>i j. i < length l \<and> j < length l \<and> i \<noteq> j \<and> l ! i = a \<and> l ! j = b"
proof -
  from assms have a: "a \<in># mset l" and b: "b \<in># mset l - {#a#}"
    by (simp_all add: insert_subset_eq_iff)
  from a obtain us vs where l: "l = us @ a # vs"
    by (auto dest: split_list)
  then have "mset l - {#a#} = mset (us @ vs)" by simp
  with b have "b \<in> set us \<or> b \<in> set vs" by auto
  then show ?thesis
  proof
    assume "b \<in> set us"
    then obtain j where j: "j < length us" "us ! j = b" by (auto simp: in_set_conv_nth)
    show ?thesis
      by (rule exI[of _ "length us"], rule exI[of _ j]) (use j l in \<open>auto simp: nth_append\<close>)
  next
    assume "b \<in> set vs"
    then obtain j where j: "j < length vs" "vs ! j = b" by (auto simp: in_set_conv_nth)
    show ?thesis
      by (rule exI[of _ "length us"], rule exI[of _ "length us + 1 + j"])
         (use j l in \<open>auto simp: nth_append\<close>)
  qed
qed

lemma mem_findWith_mset:
  "x \<in> set (findIntersectingOutletsWith r l) \<longleftrightarrow>
     (\<exists>a b. {#a, b#} \<subseteq># mset l \<and> outlet_id a = x \<and> overlap r a b)"
  (is "?L = ?R")
proof
  assume ?L
  then obtain i j where ij: "i < length l" "j < length l" "i \<noteq> j" "outlet_id (l ! i) = x"
      "overlap r (l ! i) (l ! j)"
    unfolding mem_findWith by blast
  have "{#l ! i, l ! j#} \<subseteq># mset l"
  proof (cases "i < j")
    case True
    then show ?thesis using ij by (intro pair_of_indices_mset)
  next
    case False
    then have "j < i" using ij by simp
    then have "{#l ! j, l ! i#} \<subseteq># mset l" using ij by (intro pair_of_indices_mset)
    then show ?thesis by (simp add: add_mset_commute)
  qed
  with ij show ?R by blast
next
  assume ?R
  then obtain a b where ab: "{#a, b#} \<subseteq># mset l" "outlet_id a = x" "overlap r a b"
    by blast
  from indices_of_pair_mset[OF ab(1)] ab(2,3) show ?L
    unfolding mem_findWith by blast
qed

lemma js_lt_mono: "js_lt d (Num x) \<Longrightarrow> x \<le> y \<Longrightarrow> js_lt d (Num y)"
  by (cases d) simp_all

section \<open>The effect, and the examples evaluated\<close>

lemma mk_outlet_sel [simp]:
  "outlet_id (mk_outlet i lat lon) = i"
  "latitude (mk_outlet i lat lon) = lat"
  "longitude (mk_outlet i lat lon) = lon"
  by (simp_all add: mk_outlet_def)

lemma distance_north_north [simp]: "distance (north i) (north j) = Num 0"
  unfolding distance_def north_def mk_outlet_sel
  by (rule calculateDistance_same[of _ 90 _ 1]) simp_all

lemma distance_kl_kl [simp]: "distance (kl i) (kl j) = Num 0"
  unfolding distance_def kl_def mk_outlet_sel
  by (rule calculateDistance_same[of _ "3.1390" _ "101.6869"]) simp_all

lemma distance_north_south [simp]: "distance (north i) (south j) = Num (6371 * pi)"
  unfolding distance_def north_def south_def mk_outlet_sel
  by (rule calculateDistance_poles[of _ 1 _ 1]) simp_all

lemma distance_south_north [simp]: "distance (south i) (north j) = Num (6371 * pi)"
  by (simp add: distance_sym[of "south i"])

lemma example_ids [simp]:
  "outlet_id (kl i) = i" "outlet_id (north i) = i" "outlet_id (south i) = i"
  by (simp_all add: kl_def north_def south_def)

lemma far_apart [simp]: "\<not> 6371 * pi < 10"
  using pi_ge_two by simp

lemma find_nns: "findIntersectingOutletsWith 5 [north 101, north 102, south 103] = [101, 102]"
  by (simp add: findIntersectingOutletsWith_def outer_loop.simps inner_loop.simps
      Set_new_def Set_add_def)

lemma find_snn: "findIntersectingOutletsWith 5 [south 103, north 102, north 101] = [102, 101]"
  by (simp add: findIntersectingOutletsWith_def outer_loop.simps inner_loop.simps
      Set_new_def Set_add_def)

lemma threshold: "js_mul (Num r) (Num 2) = Num (2 * r)"
  by (simp add: mult.commute)

lemma findWith_pair:
  "findIntersectingOutletsWith r [a, b] =
     (if js_lt (distance a b) (Num (2 * r))
      then Set_add (Set_add Set_new (outlet_id a)) (outlet_id b) else Set_new)"
  by (simp add: findIntersectingOutletsWith_def outer_loop.simps inner_loop.simps threshold
      del: js_mul.simps)

lemma findWith_short: "length l \<le> 1 \<Longrightarrow> findIntersectingOutletsWith r l = Set_new"
proof -
  assume "length l \<le> 1"
  then have "set (findIntersectingOutletsWith r l) = {}"
    unfolding set_eq_iff mem_findWith by auto
  then show ?thesis by (simp add: Set_new_def)
qed

lemma useEffect_intersecting:
  "intersectingOutlets (useEffect l st) = findIntersectingOutlets (filter validOutlet l)"
  by (cases l)
     (simp_all add: useEffect_def Let_def findIntersectingOutlets_def findWith_short)

lemma useEffect_outlets: "outlets (useEffect l st) = filter validOutlet l"
  by (cases l) (simp_all add: useEffect_def Let_def)

lemma validOutlet_examples [simp]:
  "validOutlet (kl i)" "validOutlet (north i)" "validOutlet (south i)"
  "\<not> validOutlet (mk_outlet i JNull lon)"
  by (simp_all add: validOutlet_def kl_def north_def south_def isNaN_def)

lemma find_nns_wide:
  "findIntersectingOutletsWith (6371 * pi) [north 101, north 102, south 103] = [101, 102, 103]"
  using pi_gt_zero
  by (simp add: findIntersectingOutletsWith_def outer_loop.simps inner_loop.simps
      Set_new_def Set_add_def)

section \<open>The fields that are read, and the filter\<close>

lemma inner_loop_fields:
  assumes "map (\<lambda>x. (outlet_id x, latitude x, longitude x)) l =
           map (\<lambda>x. (outlet_id x, latitude x, longitude x)) l'"
    and "i < length l"
  shows "inner_loop r l i j acc = inner_loop r l' i j acc"
  using assms
proof (induction r l i j acc rule: inner_loop.induct)
  case (1 r l i j acc)
  have len: "length l' = length l"
    using map_eq_imp_length_eq[OF "1.prems"(1)] by simp
  have nth: "outlet_id (l' ! k) = outlet_id (l ! k) \<and> latitude (l' ! k) = latitude (l ! k) \<and>
             longitude (l' ! k) = longitude (l ! k)" if "k < length l" for k
  proof -
    have "map (\<lambda>x. (outlet_id x, latitude x, longitude x)) l ! k =
          map (\<lambda>x. (outlet_id x, latitude x, longitude x)) l' ! k"
      using "1.prems"(1) by simp
    then show ?thesis using that len by simp
  qed
  show ?case
  proof (cases "j < length l")
    case False
    then show ?thesis
      using len by (simp add: inner_loop.simps[of r l] inner_loop.simps[of r l'])
  next
    case True
    have d: "distance (l' ! i) (l' ! j) = distance (l ! i) (l ! j)"
      using nth[OF True] nth[OF "1.prems"(2)] by (simp add: distance_def)
    show ?thesis
      using True len d nth[OF True] nth[OF "1.prems"(2)] "1.IH"[OF True "1.prems"]
      by (simp add: inner_loop.simps[of r l i j] inner_loop.simps[of r l' i j])
  qed
qed

lemma outer_loop_fields:
  assumes "map (\<lambda>x. (outlet_id x, latitude x, longitude x)) l =
           map (\<lambda>x. (outlet_id x, latitude x, longitude x)) l'"
  shows "outer_loop r l i acc = outer_loop r l' i acc"
  using assms
proof (induction r l i acc rule: outer_loop.induct)
  case (1 r l i acc)
  have len: "length l' = length l"
    using map_eq_imp_length_eq[OF "1.prems"(1)] by simp
  show ?case
  proof (cases "i < length l")
    case False
    then show ?thesis
      using len by (simp add: outer_loop.simps[of r l] outer_loop.simps[of r l'])
  next
    case True
    show ?thesis
      using True len "1.IH"[OF True "1.prems"] inner_loop_fields[OF "1.prems" True]
      by (simp add: outer_loop.simps[of r l i] outer_loop.simps[of r l' i])
  qed
qed

lemma validOutlet_iff:
  "validOutlet a \<longleftrightarrow>
     (\<exists>m n. latitude a = JNumber m \<and> longitude a = JNumber n \<and>
            m \<noteq> NaN \<and> m \<noteq> Num 0 \<and> n \<noteq> NaN \<and> n \<noteq> Num 0)"
proof -
  have v: "ToBoolean v \<and> \<not> isNaN v \<longleftrightarrow> (\<exists>m. v = JNumber m \<and> m \<noteq> NaN \<and> m \<noteq> Num 0)" for v
  proof (cases v)
    case (JNumber m)
    then show ?thesis by (cases m) (simp_all add: isNaN_def)
  qed (simp_all add: isNaN_def)
  have "validOutlet a \<longleftrightarrow> (ToBoolean (latitude a) \<and> \<not> isNaN (latitude a)) \<and>
      (ToBoolean (longitude a) \<and> \<not> isNaN (longitude a))"
    unfolding validOutlet_def by blast
  then show ?thesis unfolding v by blast
qed

lemma overlap_finite:
  assumes "overlap r p q"
  shows "is_finite (ToNumber (latitude p)) \<and> is_finite (ToNumber (longitude p)) \<and>
         is_finite (ToNumber (latitude q)) \<and> is_finite (ToNumber (longitude q))"
proof (rule ccontr)
  assume "\<not> ?thesis"
  then have "distance p q = NaN"
    unfolding distance_def by (intro calc_nonfinite) blast
  with assms show False by simp
qed

lemma nonfinite_outlet_no_effect:
  assumes "\<not> (is_finite (ToNumber (latitude a)) \<and> is_finite (ToNumber (longitude a)))"
  shows "set (findIntersectingOutletsWith r (us @ a # vs)) =
         set (findIntersectingOutletsWith r (us @ vs))"
proof -
  have "{#p, q#} \<subseteq># mset (us @ a # vs) \<longleftrightarrow> {#p, q#} \<subseteq># mset (us @ vs)"
    if "overlap r p q" for p q
  proof -
    from overlap_finite[OF that] assms have ne: "a \<noteq> p" "a \<noteq> q" by auto
    have "{#p, q#} \<subseteq># add_mset a M \<longleftrightarrow> {#p, q#} \<subseteq># M" for M
      using ne by (auto simp: insert_subset_eq_iff)
    then show ?thesis by simp
  qed
  then show ?thesis
    unfolding set_eq_iff mem_findWith_mset by blast
qed

lemma findWith_ids_subset: "set (findIntersectingOutletsWith r l) \<subseteq> outlet_id ` set l"
  unfolding mem_findWith subset_iff by (auto simp: image_iff)

lemma findIntersectingOutlets_Nil [simp]: "findIntersectingOutlets [] = Set_new"
  by (simp add: findIntersectingOutlets_def findWith_short)

lemma more_examples [simp]:
  "outlet_id (equator i) = i" "outlet_id (unbounded i) = i" "outlet_id (unlocated i) = i"
  "\<not> validOutlet (equator i)" "validOutlet (unbounded i)" "\<not> validOutlet (unlocated i)"
  "eligible (equator i)" "\<not> present_finite (latitude (unbounded i))"
  by (simp_all add: equator_def unbounded_def unlocated_def validOutlet_def isNaN_def
      eligible_def in_range_def present_finite_def)

lemma distance_equator [simp]: "distance (equator i) (equator j) = Num 0"
  unfolding distance_def equator_def mk_outlet_sel
  by (rule calculateDistance_same[of _ 0 _ "101.6869"]) simp_all

lemma findIntersectingOutlets_pair:
  "findIntersectingOutlets [a, b] =
     (if js_lt (distance a b) (Num 10)
      then Set_add (Set_add Set_new (outlet_id a)) (outlet_id b) else Set_new)"
  by (simp add: findIntersectingOutlets_def findWith_pair)

section \<open>The claims\<close>



text \<open>
  The claim C3 as it is worded asks that every outlet with finite coordinates in the
  geographic range is retained, latitude 0 and longitude 0 included, and that an outlet
  without finite coordinates is excluded. The filter tests the coordinates for
  truthiness: two eligible outlets on the equator, at distance 0 of each other, are both
  dropped and the effect flags nothing, where \<open>findIntersectingOutlets\<close> on the same list
  flags both. An outlet with an infinite latitude passes the filter.
\<close>

theorem zero_coordinate_excluded:
  "eligible (equator 101) \<and> eligible (equator 102)
   \<and> distance (equator 101) (equator 102) = Num 0
   \<and> \<not> validOutlet (equator 101) \<and> \<not> validOutlet (equator 102)
   \<and> outlets (useEffect [equator 101, equator 102] (initial_state [equator 101, equator 102])) = []
   \<and> intersectingOutlets
        (useEffect [equator 101, equator 102] (initial_state [equator 101, equator 102])) = Set_new
   \<and> findIntersectingOutlets [equator 101, equator 102] = [101, 102]
   \<and> \<not> present_finite (latitude (unbounded 103)) \<and> validOutlet (unbounded 103)
   \<and> outlets (useEffect [unbounded 103] (initial_state [unbounded 103])) = [unbounded 103]"
  by (simp add: useEffect_outlets useEffect_intersecting findIntersectingOutlets_pair
      Set_new_def Set_add_def)

text \<open>
  Claim C3, amended. An outlet whose latitude or longitude is absent, \<open>null\<close> or
  \<open>NaN\<close> is excluded; an outlet whose latitude and longitude are numbers other than
  \<open>NaN\<close> and 0 is retained, whatever their range. The effect keeps the retained outlets
  and analyses exactly them, so an excluded outlet never changes the flagged set, and
  its id is flagged only if a retained outlet carries the same id. A retained outlet
  with a coordinate that is not finite has no influence on the flagged set either.
\<close>

theorem filter_isolates_excluded:
  "(latitude a \<in> {JUndefined, JNull, JNumber NaN} \<or>
    longitude a \<in> {JUndefined, JNull, JNumber NaN} \<longrightarrow> \<not> validOutlet a)
   \<and> (latitude a = JNumber m \<and> longitude a = JNumber n \<and>
        m \<notin> {NaN, Num 0} \<and> n \<notin> {NaN, Num 0} \<longrightarrow> validOutlet a)
   \<and> outlets (useEffect l st) = filter validOutlet l
   \<and> intersectingOutlets (useEffect l st) = findIntersectingOutlets (filter validOutlet l)
   \<and> (\<not> validOutlet a \<longrightarrow>
        intersectingOutlets (useEffect (us @ a # vs) st) =
        intersectingOutlets (useEffect (us @ vs) st))
   \<and> (\<not> validOutlet a \<and> outlet_id a \<notin> outlet_id ` set (filter validOutlet l) \<longrightarrow>
        outlet_id a \<notin> set (intersectingOutlets (useEffect l st)))
   \<and> (\<not> is_finite (ToNumber (latitude a)) \<or> \<not> is_finite (ToNumber (longitude a)) \<longrightarrow>
        set (intersectingOutlets (useEffect (us @ a # vs) st)) =
        set (intersectingOutlets (useEffect (us @ vs) st)))"
proof (intro conjI impI)
  assume "latitude a \<in> {JUndefined, JNull, JNumber NaN} \<or>
    longitude a \<in> {JUndefined, JNull, JNumber NaN}"
  then show "\<not> validOutlet a" unfolding validOutlet_iff by auto
next
  assume "latitude a = JNumber m \<and> longitude a = JNumber n \<and>
        m \<notin> {NaN, Num 0} \<and> n \<notin> {NaN, Num 0}"
  then show "validOutlet a" unfolding validOutlet_iff by auto
next
  show "outlets (useEffect l st) = filter validOutlet l" by (rule useEffect_outlets)
  show "intersectingOutlets (useEffect l st) = findIntersectingOutlets (filter validOutlet l)"
    by (rule useEffect_intersecting)
next
  assume "\<not> validOutlet a"
  then show "intersectingOutlets (useEffect (us @ a # vs) st) =
        intersectingOutlets (useEffect (us @ vs) st)"
    by (simp add: useEffect_intersecting)
next
  assume h: "\<not> validOutlet a \<and> outlet_id a \<notin> outlet_id ` set (filter validOutlet l)"
  have "set (findIntersectingOutletsWith 5 (filter validOutlet l))
          \<subseteq> outlet_id ` set (filter validOutlet l)"
    by (rule findWith_ids_subset)
  with h show "outlet_id a \<notin> set (intersectingOutlets (useEffect l st))"
    unfolding useEffect_intersecting findIntersectingOutlets_def by blast
next
  assume h: "\<not> is_finite (ToNumber (latitude a)) \<or> \<not> is_finite (ToNumber (longitude a))"
  show "set (intersectingOutlets (useEffect (us @ a # vs) st)) =
        set (intersectingOutlets (useEffect (us @ vs) st))"
  proof (cases "validOutlet a")
    case False
    then show ?thesis by (simp add: useEffect_intersecting)
  next
    case True
    have "set (findIntersectingOutletsWith 5 (filter validOutlet us @ a # filter validOutlet vs)) =
          set (findIntersectingOutletsWith 5 (filter validOutlet us @ filter validOutlet vs))"
      using h by (intro nonfinite_outlet_no_effect) blast
    then show ?thesis
      using True by (simp add: useEffect_intersecting findIntersectingOutlets_def)
  qed
qed

theorem filter_isolates_excluded_witness:
  "latitude (unlocated 103) \<in> {JUndefined, JNull, JNumber NaN}
   \<and> \<not> validOutlet (unlocated 103)
   \<and> latitude (kl 101) = JNumber (Num 3.1390) \<and> longitude (kl 101) = JNumber (Num 101.6869)
   \<and> Num 3.1390 \<notin> {NaN, Num 0} \<and> Num 101.6869 \<notin> {NaN, Num 0} \<and> validOutlet (kl 101)
   \<and> outlet_id (unlocated 103) \<notin> outlet_id ` set (filter validOutlet [kl 101, unlocated 103, kl 102])
   \<and> outlets (useEffect [kl 101, unlocated 103, kl 102] (initial_state [])) = [kl 101, kl 102]
   \<and> intersectingOutlets (useEffect [kl 101, unlocated 103, kl 102] (initial_state []))
       = intersectingOutlets (useEffect [kl 101, kl 102] (initial_state []))
   \<and> intersectingOutlets (useEffect [kl 101, kl 102] (initial_state [])) = [101, 102]
   \<and> 103 \<notin> set (intersectingOutlets (useEffect [kl 101, unlocated 103, kl 102] (initial_state [])))
   \<and> \<not> is_finite (ToNumber (latitude (unbounded 104)))
   \<and> set (intersectingOutlets (useEffect [kl 101, unbounded 104, kl 102] (initial_state [])))
       = set (intersectingOutlets (useEffect [kl 101, kl 102] (initial_state [])))"
proof -
  note t = filter_isolates_excluded[of "unlocated 103" "Num 3.1390" "Num 101.6869"
      "[kl 101, unlocated 103, kl 102]" "initial_state []" "[kl 101]" "[kl 102]"]
  note u = filter_isolates_excluded[of "kl 101" "Num 3.1390" "Num 101.6869"
      "[kl 101, kl 102]" "initial_state []" "[]" "[]"]
  note w = filter_isolates_excluded[of "unbounded 104" "Num 3.1390" "Num 101.6869"
      "[kl 101, kl 102]" "initial_state []" "[kl 101]" "[kl 102]"]
  have k: "latitude (kl 101) = JNumber (Num 3.1390)" "longitude (kl 101) = JNumber (Num 101.6869)"
    "latitude (unlocated 103) = JNull" "\<not> is_finite (ToNumber (latitude (unbounded 104)))"
    by (simp_all add: kl_def unlocated_def unbounded_def is_finite_def)
  have f: "findIntersectingOutlets [kl 101, kl 102] = [101, 102]"
    by (simp add: findIntersectingOutlets_pair Set_new_def Set_add_def)
  show ?thesis
    using t u w k f by simp
qed

text \<open>
  Claim C4. A list of at most one outlet yields the empty set, and so does the effect
  when at most one outlet of its input passes the filter; the result is an ordinary value.
\<close>

theorem degenerate_input_empty:
  "(length l \<le> 1 \<longrightarrow>
      findIntersectingOutlets l = Set_new \<and> findIntersectingOutletsWith r l = Set_new)
   \<and> (length (filter validOutlet l) \<le> 1 \<longrightarrow>
      intersectingOutlets (useEffect l st) = Set_new)"
  by (simp add: useEffect_intersecting findIntersectingOutlets_def findWith_short)

theorem degenerate_input_empty_witness:
  "length [kl 101] \<le> 1 \<and> findIntersectingOutlets [kl 101] = Set_new
   \<and> length ([] :: nat outlet list) \<le> 1 \<and> findIntersectingOutlets ([] :: nat outlet list) = Set_new
   \<and> length (filter validOutlet [kl 101, mk_outlet 102 JNull (JNumber (Num 101.6869))]) \<le> 1
   \<and> intersectingOutlets
        (useEffect [kl 101, mk_outlet 102 JNull (JNumber (Num 101.6869))]
           (initial_state [kl 101, mk_outlet 102 JNull (JNumber (Num 101.6869))])) = Set_new"
  using degenerate_input_empty[of "[kl 101]" 5
      "initial_state [kl 101, mk_outlet 102 JNull (JNumber (Num 101.6869))]"]
    degenerate_input_empty[of "[] :: nat outlet list" 5 "initial_state []"]
    degenerate_input_empty[of "[kl 101, mk_outlet 102 JNull (JNumber (Num 101.6869))]" 5
      "initial_state [kl 101, mk_outlet 102 JNull (JNumber (Num 101.6869))]"]
  by simp

text \<open>
  Claim C5. Two lists with the same outlets in a different order yield the same set of
  flagged ids. (The insertion order of the JavaScript \<open>Set\<close> may differ, its elements
  do not.)
\<close>

theorem order_independence:
  assumes "mset l = mset l'"
  shows "set (findIntersectingOutletsWith r l) = set (findIntersectingOutletsWith r l')
       \<and> set (findIntersectingOutlets l) = set (findIntersectingOutlets l')"
  unfolding findIntersectingOutlets_def set_eq_iff mem_findWith_mset assms by simp

theorem order_independence_witness:
  "mset [north 101, north 102, south 103] = mset [south 103, north 102, north 101]
   \<and> findIntersectingOutletsWith 5 [north 101, north 102, south 103] = [101, 102]
   \<and> findIntersectingOutletsWith 5 [south 103, north 102, north 101] = [102, 101]
   \<and> set (findIntersectingOutlets [north 101, north 102, south 103])
       = set (findIntersectingOutlets [south 103, north 102, north 101])"
proof -
  have m: "mset [north 101, north 102, south 103] = mset [south 103, north 102, north 101]"
    by (simp add: add_mset_commute)
  show ?thesis
    using m order_independence[OF m, of 5] by (simp add: find_nns find_snn)
qed

text \<open>
  Claim C6. With the outlets fixed, a larger radius never flags fewer ids: for
  \<open>r1 \<le> r2\<close> the set for \<open>r1\<close> is contained in the set for \<open>r2\<close>. The radii
  need not be positive for this.
\<close>

theorem radius_monotone:
  assumes "r1 \<le> r2"
  shows "set (findIntersectingOutletsWith r1 l) \<subseteq> set (findIntersectingOutletsWith r2 l)"
proof
  fix x
  assume "x \<in> set (findIntersectingOutletsWith r1 l)"
  then obtain i j where ij: "i < length l" "j < length l" "i \<noteq> j" "outlet_id (l ! i) = x"
      "js_lt (distance (l ! i) (l ! j)) (Num (2 * r1))"
    unfolding mem_findWith threshold by blast
  have "js_lt (distance (l ! i) (l ! j)) (Num (2 * r2))"
    using js_lt_mono[OF ij(5), of "2 * r2"] assms by simp
  with ij show "x \<in> set (findIntersectingOutletsWith r2 l)"
    unfolding mem_findWith threshold by blast
qed

theorem radius_monotone_witness:
  "(5::real) \<le> 6371 * pi
   \<and> findIntersectingOutletsWith 5 [north 101, north 102, south 103] = [101, 102]
   \<and> findIntersectingOutletsWith (6371 * pi) [north 101, north 102, south 103] = [101, 102, 103]
   \<and> set (findIntersectingOutletsWith 5 [north 101, north 102, south 103])
       \<subseteq> set (findIntersectingOutletsWith (6371 * pi) [north 101, north 102, south 103])"
proof -
  have le: "(5::real) \<le> 6371 * pi" using pi_ge_two by simp
  show ?thesis
    using le radius_monotone[OF le, of "[north 101, north 102, south 103]"]
    by (simp add: find_nns find_nns_wide)
qed

text \<open>
  Claim C7. For two outlets at different positions of the list whose distance is below
  the threshold, the id of the one is flagged if and only if the id of the other is;
  indeed both are.
\<close>

theorem flagging_symmetric:
  assumes "i < length l" "j < length l" "i \<noteq> j"
    and "js_lt (distance (l ! i) (l ! j)) (Num (2 * r))"
  shows "(outlet_id (l ! i) \<in> set (findIntersectingOutletsWith r l) \<longleftrightarrow>
          outlet_id (l ! j) \<in> set (findIntersectingOutletsWith r l))
       \<and> outlet_id (l ! i) \<in> set (findIntersectingOutletsWith r l)
       \<and> outlet_id (l ! j) \<in> set (findIntersectingOutletsWith r l)"
proof -
  have a: "outlet_id (l ! i) \<in> set (findIntersectingOutletsWith r l)"
    unfolding mem_findWith threshold using assms by blast
  have "js_lt (distance (l ! j) (l ! i)) (Num (2 * r))"
    using assms(4) by (simp add: distance_sym[of "l ! j"])
  then have b: "outlet_id (l ! j) \<in> set (findIntersectingOutletsWith r l)"
    unfolding mem_findWith threshold using assms(1-3) by blast
  from a b show ?thesis by simp
qed

theorem flagging_symmetric_witness:
  "(0::nat) < length [north 101, north 102, south 103] \<and> (1::nat) < length [north 101, north 102, south 103]
   \<and> (0::nat) \<noteq> 1
   \<and> js_lt (distance ([north 101, north 102, south 103] ! 0) ([north 101, north 102, south 103] ! 1)) (Num (2 * 5))
   \<and> outlet_id ([north 101, north 102, south 103] ! 0)
        \<in> set (findIntersectingOutletsWith 5 [north 101, north 102, south 103])
   \<and> outlet_id ([north 101, north 102, south 103] ! 1)
        \<in> set (findIntersectingOutletsWith 5 [north 101, north 102, south 103])"
proof -
  have h: "(0::nat) < length [north 101, north 102, south 103]"
    "(1::nat) < length [north 101, north 102, south 103]" "(0::nat) \<noteq> 1"
    "js_lt (distance ([north 101, north 102, south 103] ! 0) ([north 101, north 102, south 103] ! 1)) (Num (2 * 5))"
    by simp_all
  show ?thesis
    using h flagging_symmetric[OF h] by simp
qed

text \<open>
  Claim C8. The computed set depends only on the id, the latitude and the longitude of
  each outlet: two lists that agree on these three fields position by position, whatever
  their names, addresses, opening hours, telephone numbers and navigation links, give the
  same result.
\<close>

theorem only_id_and_coordinates:
  assumes "map (\<lambda>x. (outlet_id x, latitude x, longitude x)) l =
           map (\<lambda>x. (outlet_id x, latitude x, longitude x)) l'"
  shows "findIntersectingOutletsWith r l = findIntersectingOutletsWith r l'
       \<and> findIntersectingOutlets l = findIntersectingOutlets l'"
  unfolding findIntersectingOutlets_def findIntersectingOutletsWith_def
  using outer_loop_fields[OF assms] by simp

theorem only_id_and_coordinates_witness:
  "map (\<lambda>x. (outlet_id x, latitude x, longitude x)) [north 101, north 102, south 103] =
   map (\<lambda>x. (outlet_id x, latitude x, longitude x))
     [(north 101)\<lparr>name := ''Bukit Bintang'', address := ''Jalan Sultan Ismail''\<rparr>,
      (north 102)\<lparr>operating_hours := Some ''24 hours'', telephone := Some ''03-1234''\<rparr>,
      (south 103)\<lparr>waze_link := Some ''https://waze.com/ul''\<rparr>]
   \<and> findIntersectingOutletsWith 5
     [(north 101)\<lparr>name := ''Bukit Bintang'', address := ''Jalan Sultan Ismail''\<rparr>,
      (north 102)\<lparr>operating_hours := Some ''24 hours'', telephone := Some ''03-1234''\<rparr>,
      (south 103)\<lparr>waze_link := Some ''https://waze.com/ul''\<rparr>] = [101, 102]"
proof -
  have m: "map (\<lambda>x. (outlet_id x, latitude x, longitude x)) [north 101, north 102, south 103] =
   map (\<lambda>x. (outlet_id x, latitude x, longitude x))
     [(north 101)\<lparr>name := ''Bukit Bintang'', address := ''Jalan Sultan Ismail''\<rparr>,
      (north 102)\<lparr>operating_hours := Some ''24 hours'', telephone := Some ''03-1234''\<rparr>,
      (south 103)\<lparr>waze_link := Some ''https://waze.com/ul''\<rparr>]"
    by simp
  show ?thesis
    using m only_id_and_coordinates[OF m, of 5] by (simp add: find_nns)
qed

text \<open>
  Claim C9. Every id in the computed set is the id of an outlet of the input list.
\<close>

theorem flagged_ids_from_input:
  "set (findIntersectingOutletsWith r l) \<subseteq> outlet_id ` set l
   \<and> set (findIntersectingOutlets l) \<subseteq> outlet_id ` set l
   \<and> set (intersectingOutlets (useEffect l st)) \<subseteq> outlet_id ` set l"
proof -
  have a: "set (findIntersectingOutletsWith r' l') \<subseteq> outlet_id ` set l'"
    for r' and l' :: "'a outlet list"
    unfolding mem_findWith subset_iff by (auto simp: image_iff)
  have "outlet_id ` set (filter validOutlet l) \<subseteq> outlet_id ` set l" by auto
  then show ?thesis
    using a[of r l] a[of 5 l] a[of 5 "filter validOutlet l"]
    by (auto simp: useEffect_intersecting findIntersectingOutlets_def)
qed

theorem flagged_ids_from_input_witness:
  "set (findIntersectingOutletsWith 5 [north 101, north 102, south 103]) = {101, 102}
   \<and> set (findIntersectingOutletsWith 5 [north 101, north 102, south 103])
        \<subseteq> outlet_id ` set [north 101, north 102, south 103]"
  using flagged_ids_from_input[of 5 "[north 101, north 102, south 103]" "initial_state []"]
  by (simp add: find_nns)

text \<open>
  Claim C10. When the ids of the outlets are pairwise distinct, the computed set never has
  exactly one element: it is empty or has at least two.
\<close>

theorem never_a_single_id:
  assumes "distinct (map outlet_id l)"
  shows "Set_size (findIntersectingOutletsWith r l) \<noteq> 1
       \<and> (Set_size (findIntersectingOutletsWith r l) = 0
            \<or> 2 \<le> Set_size (findIntersectingOutletsWith r l))
       \<and> Set_size (findIntersectingOutlets l) \<noteq> 1"
proof -
  have ne: "length (findIntersectingOutletsWith r' l) \<noteq> 1" for r'
  proof
    assume "length (findIntersectingOutletsWith r' l) = 1"
    then obtain x where s: "findIntersectingOutletsWith r' l = [x]"
      by (cases "findIntersectingOutletsWith r' l") auto
    then have "x \<in> set (findIntersectingOutletsWith r' l)" by simp
    then obtain i j where ij: "i < length l" "j < length l" "i \<noteq> j" "outlet_id (l ! i) = x"
        "js_lt (distance (l ! i) (l ! j)) (Num (2 * r'))"
      unfolding mem_findWith threshold by blast
    have "js_lt (distance (l ! j) (l ! i)) (Num (2 * r'))"
      using ij(5) by (simp add: distance_sym[of "l ! j"])
    then have "outlet_id (l ! j) \<in> set (findIntersectingOutletsWith r' l)"
      unfolding mem_findWith threshold using ij(1-3) by blast
    then have "outlet_id (l ! j) = outlet_id (l ! i)" using s ij(4) by simp
    then have "map outlet_id l ! j = map outlet_id l ! i" using ij by simp
    then have "j = i" using nth_eq_iff_index_eq[OF assms, of j i] ij by simp
    with ij(3) show False by simp
  qed
  from ne[of r] ne[of 5] show ?thesis
    unfolding Set_size_def findIntersectingOutlets_def by linarith
qed

theorem never_a_single_id_witness:
  "distinct (map outlet_id [north 101, north 102, south 103])
   \<and> Set_size (findIntersectingOutletsWith 5 [north 101, north 102, south 103]) = 2
   \<and> Set_size (findIntersectingOutletsWith 5 [north 101, north 102, south 103]) \<noteq> 1
   \<and> Set_size (findIntersectingOutletsWith 5 [north 101, south 103]) = 0"
proof -
  have d: "distinct (map outlet_id [north 101, north 102, south 103])" by simp
  show ?thesis
    using d never_a_single_id[OF d, of 5]
    by (simp add: find_nns findWith_pair Set_size_def Set_new_def)
qed

end
